theory Spec2Isabelle
  imports Complex_Main "HOL-Library.Sublist"
begin

section \<open>Python strings\<close>

text \<open>
  The engine (\<^verbatim>\<open>src/prompt_engine.py\<close>) works on Python \<^verbatim>\<open>str\<close> values with
  \<^verbatim>\<open>find\<close>, slicing, \<^verbatim>\<open>strip\<close>, \<^verbatim>\<open>split\<close>, \<^verbatim>\<open>lower\<close>, \<^verbatim>\<open>join\<close> and three regular
  expressions. A string is modelled as a \<^typ>\<open>string\<close>, each \<^typ>\<open>char\<close> standing for
  the code point of the same number, so the model covers the texts whose code points lie
  below 256. The character classes below are Python's own tables cut down to that range.
\<close>

definition code_point :: "char \<Rightarrow> nat" where
  "code_point c = of_char c"

text \<open>
  \<^verbatim>\<open>str.isspace\<close>, the class that \<^verbatim>\<open>split()\<close> and \<^verbatim>\<open>strip()\<close> use: TAB to CR, the
  separators FS to US, the blank, NEL and the no-break space.
\<close>

definition isspace :: "char \<Rightarrow> bool" where
  "isspace c =
     (let n = code_point c
      in (9 \<le> n \<and> n \<le> 13) \<or> (28 \<le> n \<and> n \<le> 32) \<or> n = 133 \<or> n = 160)"

text \<open>
  The class \<^verbatim>\<open>\w\<close> of the module \<^verbatim>\<open>re\<close> on \<^verbatim>\<open>str\<close> patterns: the alphanumeric
  code points (\<^verbatim>\<open>str.isalnum\<close>) and the underscore.
\<close>

definition isword :: "char \<Rightarrow> bool" where
  "isword c =
     (let n = code_point c
      in (48 \<le> n \<and> n \<le> 57) \<or> (65 \<le> n \<and> n \<le> 90) \<or> n = 95 \<or> (97 \<le> n \<and> n \<le> 122)
         \<or> n = 170 \<or> n = 178 \<or> n = 179 \<or> n = 181 \<or> n = 185 \<or> n = 186
         \<or> (188 \<le> n \<and> n \<le> 190) \<or> (192 \<le> n \<and> n \<le> 214)
         \<or> (216 \<le> n \<and> n \<le> 246) \<or> (248 \<le> n \<and> n \<le> 255))"

text \<open>\<^verbatim>\<open>str.lower\<close>: the capital letters A to Z and the accented capitals move up by 32.\<close>

definition lower_char :: "char \<Rightarrow> char" where
  "lower_char c =
     (let n = code_point c
      in if (65 \<le> n \<and> n \<le> 90) \<or> (192 \<le> n \<and> n \<le> 214) \<or> (216 \<le> n \<and> n \<le> 222)
         then char_of (n + 32) else c)"

definition str_lower :: "string \<Rightarrow> string" where
  "str_lower s = map lower_char s"

text \<open>
  The maximal runs of characters of a class, from left to right; \<open>cur\<close> is the run
  being read. Both \<^verbatim>\<open>s.split()\<close> (runs of non-blank characters) and
  \<^verbatim>\<open>re.findall(r'\w+', s)\<close> (runs of word characters) are instances.
\<close>

fun runs :: "(char \<Rightarrow> bool) \<Rightarrow> string \<Rightarrow> string \<Rightarrow> string list" where
  "runs P cur [] = (if cur = [] then [] else [cur])"
| "runs P cur (c # cs) =
     (if P c then runs P (cur @ [c]) cs
      else if cur = [] then runs P [] cs
      else cur # runs P [] cs)"

definition str_split :: "string \<Rightarrow> string list" where
  "str_split s = runs (\<lambda>c. \<not> isspace c) [] s"

definition re_findall_words :: "string \<Rightarrow> string list" where
  "re_findall_words s = runs isword [] s"

text \<open>\<^verbatim>\<open>re.findall(r'[.!?]', s)\<close>: one match for each character of the class.\<close>

definition re_findall_class :: "string \<Rightarrow> string \<Rightarrow> string list" where
  "re_findall_class cls s = map (\<lambda>c. [c]) (filter (\<lambda>c. c \<in> set cls) s)"

text \<open>
  \<^verbatim>\<open>\b\<close> holds between two positions when exactly one of the neighbours is a word
  character; the start and the end of the text count as non-word.
\<close>

definition word_boundary :: "char option \<Rightarrow> char option \<Rightarrow> bool" where
  "word_boundary prev nxt =
     ((case prev of None \<Rightarrow> False | Some c \<Rightarrow> isword c)
      \<noteq> (case nxt of None \<Rightarrow> False | Some c \<Rightarrow> isword c))"

definition first_char :: "string \<Rightarrow> char option" where
  "first_char s = (case s of [] \<Rightarrow> None | c # _ \<Rightarrow> Some c)"

text \<open>
  \<^verbatim>\<open>\bw\b\<close> matched at the head of \<open>rest\<close>, the text that follows the character
  \<open>prev\<close>.
\<close>

definition match_word_here :: "char option \<Rightarrow> string \<Rightarrow> string \<Rightarrow> bool" where
  "match_word_here prev rest w =
     (prefix w rest
      \<and> word_boundary prev (first_char rest)
      \<and> word_boundary (if w = [] then prev else Some (last w))
           (first_char (drop (length w) rest)))"

text \<open>
  \<^verbatim>\<open>re.search(r'\b(w1|w2|...)\b', s)\<close> as a truth value: some alternative matches at
  some position of the text.
\<close>

fun re_search_from :: "string list \<Rightarrow> char option \<Rightarrow> string \<Rightarrow> bool" where
  "re_search_from ws prev [] = list_ex (match_word_here prev []) ws"
| "re_search_from ws prev (c # cs) =
     (list_ex (match_word_here prev (c # cs)) ws \<or> re_search_from ws (Some c) cs)"

definition re_search_whole_word :: "string list \<Rightarrow> string \<Rightarrow> bool" where
  "re_search_whole_word ws s = re_search_from ws None s"

section \<open>The output scorer\<close>

text \<open>
  \<^verbatim>\<open>score_output\<close> (lines 98 to 134). The keyword sets and their overlap are the
  source's local variables. The relevance test divides two Python integers and compares
  the quotient with 0.5; the quotient is taken exactly here, which is what the
  floating-point division yields for every keyword count below \<open>2 ^ 52\<close>.
\<close>

definition prompt_keywords :: "string \<Rightarrow> string set" where
  "prompt_keywords prompt = set (re_findall_words (str_lower prompt))"

definition output_keywords :: "string \<Rightarrow> string set" where
  "output_keywords output = set (re_findall_words (str_lower output))"

definition common_keywords :: "string \<Rightarrow> string \<Rightarrow> nat" where
  "common_keywords output prompt = card (prompt_keywords prompt \<inter> output_keywords output)"

definition keyword_ratio :: "string \<Rightarrow> string \<Rightarrow> rat" where
  "keyword_ratio output prompt =
     of_nat (common_keywords output prompt) / of_nat (max (card (prompt_keywords prompt)) 1)"

definition word_count :: "string \<Rightarrow> nat" where
  "word_count output = length (str_split output)"

definition clarity_points :: "string \<Rightarrow> int" where
  "clarity_points output =
     (if length (str_split output) > 10 \<and> length (re_findall_class ''.!?'' output) > 1
      then 30 else 0)
     + (if \<not> re_search_whole_word [''lorem'', ''ipsum'', ''error''] (str_lower output)
        then 10 else 0)"

definition relevance_points :: "string \<Rightarrow> string \<Rightarrow> int" where
  "relevance_points output prompt =
     (if keyword_ratio output prompt > 1 / 2 then 30
      else if common_keywords output prompt > 0 then 20
      else 0)"

definition length_points :: "string \<Rightarrow> int" where
  "length_points output =
     (let n = word_count output
      in if 50 \<le> n \<and> n \<le> 500 then 20
         else if (20 \<le> n \<and> n < 50) \<or> (500 < n \<and> n \<le> 1000) then 10
         else 0)"

definition score_output :: "string \<Rightarrow> string \<Rightarrow> int" where
  "score_output output prompt =
     (let score = 0;
          score = score + clarity_points output;
          score = score + relevance_points output prompt;
          score = score + length_points output
      in min score 100)"

section \<open>More string operations\<close>

text \<open>\<^verbatim>\<open>s.find(sub)\<close>: the lowest index at which \<open>sub\<close> starts, and -1 when there is none.\<close>

fun str_find :: "string \<Rightarrow> string \<Rightarrow> int" where
  "str_find [] sub = (if sub = [] then 0 else - 1)"
| "str_find (c # cs) sub =
     (if prefix sub (c # cs) then 0
      else (let r = str_find cs sub in if r < 0 then - 1 else r + 1))"

text \<open>
  \<^verbatim>\<open>s[i:j]\<close> for two integers: a negative index counts from the end, both are cut
  to the range from 0 to \<^verbatim>\<open>len(s)\<close>, and the slice is empty when the start lies behind
  the end.
\<close>

definition clamp_index :: "nat \<Rightarrow> int \<Rightarrow> nat" where
  "clamp_index n i = (if i < 0 then nat (max (int n + i) 0) else min (nat i) n)"

definition str_slice :: "string \<Rightarrow> int \<Rightarrow> int \<Rightarrow> string" where
  "str_slice s i j =
     (let a = clamp_index (length s) i; b = clamp_index (length s) j
      in take (b - a) (drop a s))"

definition str_strip :: "string \<Rightarrow> string" where
  "str_strip s = rev (dropWhile isspace (rev (dropWhile isspace s)))"

fun str_join :: "string \<Rightarrow> string list \<Rightarrow> string" where
  "str_join sep [] = []"
| "str_join sep [x] = x"
| "str_join sep (x # y # ys) = x @ sep @ str_join sep (y # ys)"

text \<open>\<^verbatim>\<open>str(n)\<close> for an integer: its decimal digits, with a minus sign below zero.\<close>

fun str_nat :: "nat \<Rightarrow> string" where
  "str_nat n =
     (if n < 10 then [''0123456789'' ! n]
      else str_nat (n div 10) @ [''0123456789'' ! (n mod 10)])"

declare str_nat.simps [simp del]

definition str_int :: "int \<Rightarrow> string" where
  "str_int i = (if i < 0 then ''-'' @ str_nat (nat (- i)) else str_nat (nat i))"

definition apostrophe :: string where
  "apostrophe = [CHR 0x27]"

section \<open>The scorer and the log\<close>

text \<open>
  \<^verbatim>\<open>score_output\<close> once more (lines 109 to 134), now with the one thing it does besides
  computing: line 133 hands the line \<^verbatim>\<open>Scored output: {score}/100\<close>, with the sum
  before the final \<^verbatim>\<open>min\<close>, to the module's logger. The lines logged so far are
  passed in and returned.
\<close>

definition score_output_logged :: "string \<Rightarrow> string \<Rightarrow> string list \<Rightarrow> int \<times> string list" where
  "score_output_logged output prompt log_lines =
     (let score = 0;
          score = score + clarity_points output;
          score = score + relevance_points output prompt;
          score = score + length_points output;
          log_lines = log_lines @ [''Scored output: '' @ str_int score @ ''/100'']
      in (min score 100, log_lines))"

section \<open>Data\<close>

text \<open>
  A prompt variant is a dictionary with the keys \<^verbatim>\<open>id\<close>, \<^verbatim>\<open>style\<close> and
  \<^verbatim>\<open>prompt\<close> when \<^verbatim>\<open>generate_prompts\<close> returns it; \<^verbatim>\<open>run_studio\<close> then adds
  \<^verbatim>\<open>output\<close> and \<^verbatim>\<open>score\<close> to every one of them before it reads them again, and
  \<^verbatim>\<open>generate_report\<close> takes the variants "with test outputs and scores". The second
  record extends the first by the two keys.
\<close>

record prompt_data =
  pd_id :: int
  pd_style :: string
  pd_prompt :: string

record tested_prompt = prompt_data +
  pd_output :: string
  pd_score :: int

text \<open>The dictionary that \<^verbatim>\<open>run_studio\<close> returns.\<close>

record run_result =
  rr_prompts :: "tested_prompt list"
  rr_refined_prompt :: string
  rr_report :: string

text \<open>
  Every handler of the module catches \<^verbatim>\<open>Exception\<close>, so an exception is told apart
  only by where it comes from: the three built-in ones the module's own expressions can
  raise, and whatever the model client raises, with its text.
\<close>

datatype exn = IndexError | KeyError string | ValueError | ModelError string

text \<open>\<^verbatim>\<open>str(e)\<close>; the text of \<^verbatim>\<open>ValueError\<close> is the one \<^verbatim>\<open>max\<close> gives on an empty sequence.\<close>

fun str_exn :: "exn \<Rightarrow> string" where
  "str_exn IndexError = ''list index out of range''"
| "str_exn (KeyError k) = apostrophe @ k @ apostrophe"
| "str_exn ValueError = ''max() arg is an empty sequence''"
| "str_exn (ModelError m) = m"

text \<open>
  The module \<^verbatim>\<open>models_config\<close> is imported by the engine and is not among the sources.
  Its three names are parameters of the model: the keys of \<^verbatim>\<open>MODEL_CONFIG\<close> in their
  order, \<^verbatim>\<open>get_model_client\<close>, which hands out a client or raises, and the client's
  \<^verbatim>\<open>complete\<close>, which answers a prompt or raises. A completion is an effect on the
  outside world: the world \<open>'w\<close> is passed in and returned, so that two calls with the
  same prompt may answer differently.
\<close>

record ('c, 'w) models_config =
  MODEL_CONFIG :: "string list"
  get_model_client :: "string \<Rightarrow> exn + 'c"
  complete :: "'c \<Rightarrow> string \<Rightarrow> 'w \<Rightarrow> (exn + string) \<times> 'w"

text \<open>
  \<^verbatim>\<open>mc.get_model_client(list(mc.MODEL_CONFIG.keys())[0]).complete(meta_prompt)\<close>, the
  call that both \<^verbatim>\<open>generate_prompts\<close> and \<^verbatim>\<open>refine_prompt\<close> make inside their
  \<^verbatim>\<open>try\<close>.
\<close>

definition complete_first_model ::
  "('c, 'w) models_config \<Rightarrow> string \<Rightarrow> 'w \<Rightarrow> (exn + string) \<times> 'w" where
  "complete_first_model mc meta_prompt w =
     (case MODEL_CONFIG mc of
        [] \<Rightarrow> (Inl IndexError, w)
      | model # _ \<Rightarrow>
          (case get_model_client mc model of
             Inl e \<Rightarrow> (Inl e, w)
           | Inr client \<Rightarrow> complete mc client meta_prompt w))"

section \<open>Generating the prompt variants\<close>

definition PROMPT_STYLES :: "string list" where
  "PROMPT_STYLES = [''Concise'', ''Detailed'', ''Structured'', ''Creative'']"

definition creativity_modifier :: "int \<Rightarrow> string" where
  "creativity_modifier creativity_level =
     (if creativity_level > 7 then ''highly creative and innovative''
      else if creativity_level > 4 then ''moderately creative''
      else ''clear and straightforward'')"

text \<open>The text \<^verbatim>\<open>meta_prompt\<close> of \<^verbatim>\<open>generate_prompts\<close> (lines 28 to 46).\<close>

definition generate_meta_prompt :: "string \<Rightarrow> int \<Rightarrow> string" where
  "generate_meta_prompt rough_prompt creativity_level =
     ''\<newline>''
     @ ''You are an expert prompt engineering team tasked with creating 4 professional prompt versions for the rough prompt idea ''
     @ apostrophe @ rough_prompt @ apostrophe
     @ ''. Each prompt must have a distinct style: Concise, Detailed, Structured, and Creative. Ensure the prompts are ''
     @ creativity_modifier creativity_level
     @ '', relevant to the topic, and optimized for clarity and effectiveness. Return the prompts in the following format, with each prompt labeled:\<newline>''
     @ ''\<newline>''
     @ ''1. **Concise**: A short, direct prompt (50-100 words).\<newline>''
     @ ''2. **Detailed**: A comprehensive prompt (150-200 words) with specific instructions.\<newline>''
     @ ''3. **Structured**: A prompt (100-150 words) using bullet points or numbered steps.\<newline>''
     @ ''4. **Creative**: A novel, engaging prompt (100-150 words) with a unique angle.\<newline>''
     @ ''\<newline>''
     @ ''Example for rough prompt 'Write a blog about AI trends':\<newline>''
     @ ''1. **Concise**: Write a 500-word blog on key AI trends in 2025, focusing on industry impacts.\<newline>''
     @ ''2. **Detailed**: Write a 1000-word blog exploring AI trends in 2025, including case studies, data, and predictions, in a professional tone for tech executives.\<newline>''
     @ ''3. **Structured**: Write a 750-word blog on AI trends, covering:\<newline>''
     @ ''   - Current advancements\<newline>''
     @ ''   - Industry applications\<newline>''
     @ ''   - Future outlook\<newline>''
     @ ''4. **Creative**: Craft a 600-word blog as a futuristic AI narrating 2025 trends, blending humor and insight.\<newline>''
     @ ''\<newline>''
     @ ''Generate the 4 prompts for '' @ apostrophe @ rough_prompt @ apostrophe @ ''.\<newline>''"

definition marker :: "string \<Rightarrow> string" where
  "marker style = ''**'' @ style @ ''**:''"

definition sentinel :: "string \<Rightarrow> string" where
  "sentinel style = ''Error: Could not generate '' @ style @ '' prompt.''"

text \<open>
  One round of the parsing loop (lines 56 to 66), for the 1-based position \<open>idx\<close> and
  its style. The result of \<^verbatim>\<open>find\<close> is used as it comes, also when it is -1.
\<close>

definition parse_style :: "string \<Rightarrow> nat \<Rightarrow> string \<Rightarrow> prompt_data" where
  "parse_style response idx style =
     (let start_marker = marker style;
          end_marker =
            (if idx < length PROMPT_STYLES
             then Some (marker (PROMPT_STYLES ! (idx mod length PROMPT_STYLES)))
             else None);
          start_idx = str_find response start_marker + int (length start_marker);
          end_idx =
            (case end_marker of
               Some m \<Rightarrow> str_find response m
             | None \<Rightarrow> int (length response));
          prompt_text = str_strip (str_slice response start_idx end_idx)
      in if prompt_text \<noteq> []
         then \<lparr>pd_id = int idx, pd_style = style, pd_prompt = prompt_text\<rparr>
         else \<lparr>pd_id = int idx, pd_style = style, pd_prompt = sentinel style\<rparr>)"

text \<open>The loop \<^verbatim>\<open>for idx, style in enumerate(PROMPT_STYLES, 1)\<close> (lines 54 to 68).\<close>

definition parse_response :: "string \<Rightarrow> prompt_data list" where
  "parse_response response =
     map (\<lambda>(idx, style). parse_style response idx style) (enumerate 1 PROMPT_STYLES)"

text \<open>An exception inside the \<^verbatim>\<open>try\<close> is logged and raised again.\<close>

definition generate_prompts ::
  "('c, 'w) models_config \<Rightarrow> string \<Rightarrow> int \<Rightarrow> 'w \<Rightarrow> (exn + prompt_data list) \<times> 'w" where
  "generate_prompts mc rough_prompt creativity_level w =
     (case complete_first_model mc (generate_meta_prompt rough_prompt creativity_level) w of
        (Inl e, w') \<Rightarrow> (Inl e, w')
      | (Inr response, w') \<Rightarrow> (Inr (parse_response response), w'))"

section \<open>Testing a prompt\<close>

text \<open>
  The loop \<^verbatim>\<open>for i in range(iterations)\<close> of \<^verbatim>\<open>test_prompt\<close> (lines 90 to 92):
  \<open>k\<close> rounds are left, \<open>i\<close> is the loop variable and \<open>outputs\<close> the list built so
  far. A completion that raises ends the loop with the exception.
\<close>

fun test_loop ::
  "('c, 'w) models_config \<Rightarrow> 'c \<Rightarrow> string \<Rightarrow> nat \<Rightarrow> int \<Rightarrow> string list \<Rightarrow> 'w
   \<Rightarrow> (exn + string list) \<times> 'w" where
  "test_loop mc client prompt 0 i outputs w = (Inr outputs, w)"
| "test_loop mc client prompt (Suc k) i outputs w =
     (case complete mc client prompt w of
        (Inl e, w') \<Rightarrow> (Inl e, w')
      | (Inr output, w') \<Rightarrow>
          test_loop mc client prompt k (i + 1)
            (outputs @ [''Iteration '' @ str_int (i + 1) @ '': '' @ output]) w')"

text \<open>
  \<^verbatim>\<open>test_prompt\<close> (lines 74 to 96); \<^verbatim>\<open>range(iterations)\<close> has \<open>nat iterations\<close>
  elements, none for a negative number. The handler logs and raises again.
\<close>

definition test_prompt ::
  "('c, 'w) models_config \<Rightarrow> string \<Rightarrow> string \<Rightarrow> int \<Rightarrow> 'w \<Rightarrow> (exn + string) \<times> 'w" where
  "test_prompt mc prompt model iterations w =
     (case get_model_client mc model of
        Inl e \<Rightarrow> (Inl e, w)
      | Inr client \<Rightarrow>
          (case test_loop mc client prompt (nat iterations) 0 [] w of
             (Inl e, w') \<Rightarrow> (Inl e, w')
           | (Inr outputs, w') \<Rightarrow> (Inr (str_join ''\<newline>'' outputs), w')))"

section \<open>Refining a prompt\<close>

definition refinements :: "string \<Rightarrow> string \<Rightarrow> int \<Rightarrow> string list" where
  "refinements prompt output score =
     (if score < 80 then [''Add more specific instructions for clarity.''] else [])
     @ (if length (str_split output) < 50 then [''Increase the expected output length.''] else [])
     @ (if \<not> re_search_whole_word [''tone'', ''style'', ''audience''] (str_lower prompt)
        then [''Specify tone and target audience.''] else [])"

text \<open>
  The text \<^verbatim>\<open>meta_prompt\<close> of \<^verbatim>\<open>refine_prompt\<close> (lines 158 to 160);
  \<^verbatim>\<open>output[:200]\<close> is the first 200 characters, and \<^verbatim>\<open>x or 'None'\<close> is \<^verbatim>\<open>'None'\<close>
  for the empty text.
\<close>

definition refine_meta_prompt :: "string \<Rightarrow> string \<Rightarrow> int \<Rightarrow> string" where
  "refine_meta_prompt prompt output score =
     ''\<newline>''
     @ ''You are an expert prompt engineer tasked with refining the following prompt to improve its clarity, specificity, and effectiveness. Original prompt: ''
     @ apostrophe @ prompt @ apostrophe
     @ ''. Test output: '' @ apostrophe @ take 200 output @ ''...'' @ apostrophe
     @ ''. Score: '' @ str_int score @ ''/100. Suggested refinements: ''
     @ (let joined = str_join '', '' (refinements prompt output score)
        in if joined \<noteq> [] then joined else ''None'')
     @ ''. Return the refined prompt.\<newline>''"

text \<open>
  \<^verbatim>\<open>refine_prompt\<close> (lines 136 to 169). Nothing before the \<^verbatim>\<open>try\<close> can raise, and
  the handler returns the prompt it was given, so the function returns a text in every
  case.
\<close>

definition refine_prompt ::
  "('c, 'w) models_config \<Rightarrow> string \<Rightarrow> string \<Rightarrow> int \<Rightarrow> 'w \<Rightarrow> string \<times> 'w" where
  "refine_prompt mc prompt output score w =
     (case complete_first_model mc (refine_meta_prompt prompt output score) w of
        (Inr refined_prompt, w') \<Rightarrow> (str_strip refined_prompt, w')
      | (Inl e, w') \<Rightarrow> (prompt, w'))"

section \<open>The report\<close>

text \<open>The block that the loop of \<^verbatim>\<open>generate_report\<close> adds for one variant (lines 195 to 203).\<close>

definition report_block :: "tested_prompt \<Rightarrow> string" where
  "report_block prompt_data =
     ''\<newline>''
     @ ''Prompt '' @ str_int (pd_id prompt_data) @ '' ('' @ pd_style prompt_data @ ''):\<newline>''
     @ pd_prompt prompt_data @ ''\<newline>''
     @ ''\<newline>''
     @ ''Test Output:\<newline>''
     @ take 500 (pd_output prompt_data) @ ''...\<newline>''
     @ ''\<newline>''
     @ ''Score: '' @ str_int (pd_score prompt_data) @ ''/100\<newline>''"

text \<open>
  \<^verbatim>\<open>max(xs)\<close> on integers: the running maximum from the first element on, and
  \<^verbatim>\<open>ValueError\<close> on an empty sequence.
\<close>

definition py_max :: "int list \<Rightarrow> exn + int" where
  "py_max xs = (case xs of [] \<Rightarrow> Inl ValueError | x # rest \<Rightarrow> Inr (foldl max x rest))"

text \<open>
  \<^verbatim>\<open>generate_report\<close> (lines 171 to 218); \<open>now\<close> is the text of
  \<^verbatim>\<open>datetime.now().isoformat()\<close>.
\<close>

definition generate_report :: "string \<Rightarrow> string \<Rightarrow> tested_prompt list \<Rightarrow> string \<Rightarrow> exn + string" where
  "generate_report now rough_prompt prompts refined_prompt =
     (let report =
            ''\<newline>''
            @ ''PromptStudio Report\<newline>''
            @ ''==================\<newline>''
            @ ''Generated: '' @ now @ ''\<newline>''
            @ ''Original Rough Prompt: '' @ rough_prompt @ ''\<newline>''
            @ ''\<newline>''
            @ ''1. Generated Prompts\<newline>''
            @ ''-------------------\<newline>'';
          report = foldl (\<lambda>report prompt_data. report @ report_block prompt_data) report prompts
      in case py_max (map pd_score prompts) of
           Inl e \<Rightarrow> Inl e
         | Inr highest \<Rightarrow>
             Inr (report
               @ ''\<newline>''
               @ ''2. Refined Prompt\<newline>''
               @ ''----------------\<newline>''
               @ refined_prompt @ ''\<newline>''
               @ ''\<newline>''
               @ ''3. Summary\<newline>''
               @ ''----------\<newline>''
               @ ''Processed '' @ str_int (int (length prompts)) @ '' prompts with styles: ''
               @ str_join '', '' (map pd_style prompts) @ ''.\<newline>''
               @ ''Highest score: '' @ str_int highest @ ''/100.\<newline>''
               @ ''Refinement improved the best prompt based on test feedback.\<newline>''
               @ ''==================\<newline>''))"

section \<open>The pipeline\<close>

text \<open>
  One round of the loop of \<^verbatim>\<open>run_studio\<close> (lines 239 to 247): the variant gets its
  output and its score, or the text of the exception and the score 0.
\<close>

definition test_and_score ::
  "('c, 'w) models_config \<Rightarrow> string \<Rightarrow> int \<Rightarrow> prompt_data \<Rightarrow> 'w \<Rightarrow> tested_prompt \<times> 'w" where
  "test_and_score mc model iterations prompt_data w =
     (case test_prompt mc (pd_prompt prompt_data) model iterations w of
        (Inr output, w') \<Rightarrow>
          (prompt_data.extend prompt_data
             (tested_prompt.fields output (score_output output (pd_prompt prompt_data))), w')
      | (Inl e, w') \<Rightarrow>
          (prompt_data.extend prompt_data
             (tested_prompt.fields (''Error: '' @ str_exn e) 0), w'))"

fun test_and_score_all ::
  "('c, 'w) models_config \<Rightarrow> string \<Rightarrow> int \<Rightarrow> prompt_data list \<Rightarrow> 'w
   \<Rightarrow> tested_prompt list \<times> 'w" where
  "test_and_score_all mc model iterations [] w = ([], w)"
| "test_and_score_all mc model iterations (prompt_data # rest) w =
     (case test_and_score mc model iterations prompt_data w of
        (tested, w') \<Rightarrow>
          (case test_and_score_all mc model iterations rest w' of
             (tested_rest, w'') \<Rightarrow> (tested # tested_rest, w'')))"

text \<open>
  \<^verbatim>\<open>max(prompts, key=lambda p: p['score'], default=prompts[0])\<close> (line 250): the
  default is evaluated first, so an empty list raises \<^verbatim>\<open>IndexError\<close>; \<^verbatim>\<open>max\<close> keeps
  the element it holds unless a later one has a strictly greater key.
\<close>

fun max_by_score :: "tested_prompt \<Rightarrow> tested_prompt list \<Rightarrow> tested_prompt" where
  "max_by_score best [] = best"
| "max_by_score best (p # ps) =
     max_by_score (if pd_score p > pd_score best then p else best) ps"

definition best_prompt :: "tested_prompt list \<Rightarrow> exn + tested_prompt" where
  "best_prompt prompts =
     (case prompts of [] \<Rightarrow> Inl IndexError | p # ps \<Rightarrow> Inr (max_by_score p ps))"

text \<open>\<^verbatim>\<open>run_studio\<close> (lines 220 to 260).\<close>

definition run_studio ::
  "('c, 'w) models_config \<Rightarrow> string \<Rightarrow> string \<Rightarrow> int \<Rightarrow> string \<Rightarrow> int \<Rightarrow> 'w
   \<Rightarrow> (exn + run_result) \<times> 'w" where
  "run_studio mc now rough_prompt creativity_level model iterations w =
     (case generate_prompts mc rough_prompt creativity_level w of
        (Inl e, w1) \<Rightarrow> (Inl e, w1)
      | (Inr prompts, w1) \<Rightarrow>
          (case test_and_score_all mc model iterations prompts w1 of
             (tested, w2) \<Rightarrow>
               (case best_prompt tested of
                  Inl e \<Rightarrow> (Inl e, w2)
                | Inr best \<Rightarrow>
                    (case refine_prompt mc (pd_prompt best) (pd_output best) (pd_score best) w2 of
                       (refined_prompt, w3) \<Rightarrow>
                         (case generate_report now rough_prompt tested refined_prompt of
                            Inl e \<Rightarrow> (Inl e, w3)
                          | Inr report \<Rightarrow>
                              (Inr \<lparr>rr_prompts = tested, rr_refined_prompt = refined_prompt,
                                    rr_report = report\<rparr>, w3))))))"

section \<open>Notions used to state the properties\<close>

text \<open>
  The answers of \<open>n\<close> completions of one prompt made one after the other, and the world
  they leave, when every one of them succeeds.
\<close>

fun successive_outputs ::
  "('c, 'w) models_config \<Rightarrow> 'c \<Rightarrow> string \<Rightarrow> nat \<Rightarrow> 'w \<Rightarrow> (string list \<times> 'w) option" where
  "successive_outputs mc client prompt 0 w = Some ([], w)"
| "successive_outputs mc client prompt (Suc n) w =
     (case complete mc client prompt w of
        (Inl e, w') \<Rightarrow> None
      | (Inr output, w') \<Rightarrow>
          (case successive_outputs mc client prompt n w' of
             None \<Rightarrow> None
           | Some (outputs, w'') \<Rightarrow> Some (output # outputs, w'')))"

text \<open>The answers labelled \<^verbatim>\<open>Iteration 1:\<close>, \<^verbatim>\<open>Iteration 2:\<close> and so on, in their order.\<close>

definition labelled :: "string list \<Rightarrow> string list" where
  "labelled outputs =
     map (\<lambda>(n, output). ''Iteration '' @ str_int (int n) @ '': '' @ output) (enumerate 1 outputs)"

text \<open>
  Two model configurations to run the engine on: one whose client answers its \<open>n\<close>-th
  call with \<open>n\<close> letters, and one whose client always raises.
\<close>

definition mc_counting :: "(string, nat) models_config" where
  "mc_counting =
     \<lparr>MODEL_CONFIG = [''m''], get_model_client = Inr,
      complete = (\<lambda>client prompt w. (Inr (replicate (Suc w) CHR ''a''), Suc w))\<rparr>"

definition mc_down :: "(string, nat) models_config" where
  "mc_down =
     \<lparr>MODEL_CONFIG = [''m''], get_model_client = Inr,
      complete = (\<lambda>client prompt w. (Inl (ModelError ''timeout''), Suc w))\<rparr>"

text \<open>
  A configuration that behaves as \<open>mc\<close> does and keeps, beside the world, the list of
  the prompts its clients were asked to complete, in the order of the calls.
\<close>

definition recording :: "('c, 'w) models_config \<Rightarrow> ('c, 'w \<times> string list) models_config" where
  "recording mc =
     \<lparr>MODEL_CONFIG = MODEL_CONFIG mc,
      get_model_client = get_model_client mc,
      complete = (\<lambda>client prompt (w, sent).
        case complete mc client prompt w of (answer, w') \<Rightarrow> (answer, (w', sent @ [prompt])))\<rparr>"

text \<open>The requests that \<^verbatim>\<open>generate_prompts\<close> sends to the model in one call of it.\<close>

definition requests_sent ::
  "('c, 'w) models_config \<Rightarrow> string \<Rightarrow> int \<Rightarrow> 'w \<Rightarrow> string list" where
  "requests_sent mc rough_prompt creativity_level w =
     snd (snd (generate_prompts (recording mc) rough_prompt creativity_level (w, [])))"

text \<open>A configuration without models, whose \<^verbatim>\<open>get_model_client\<close> raises for every name.\<close>

definition mc_unknown :: "(unit, nat) models_config" where
  "mc_unknown =
     \<lparr>MODEL_CONFIG = [], get_model_client = (\<lambda>model. Inl (KeyError model)),
      complete = (\<lambda>client prompt w. (Inr [], Suc w))\<rparr>"

text \<open>The part of a text from position \<open>a\<close> up to position \<open>b\<close>.\<close>

definition between :: "string \<Rightarrow> nat \<Rightarrow> nat \<Rightarrow> string" where
  "between s a b = take (b - a) (drop a s)"

text \<open>
  A segment as the parsing loop stores it: without its leading and trailing blanks, and
  replaced by the style's sentinel when nothing is left.
\<close>

definition stripped_or_sentinel :: "string \<Rightarrow> string \<Rightarrow> string" where
  "stripped_or_sentinel style text =
     (if str_strip text \<noteq> [] then str_strip text else sentinel style)"

text \<open>
  Responses to run the parser on: two with the four markers in their order, and one in
  which the marker of the first style is missing.
\<close>

definition response_in_order :: string where
  "response_in_order =
     ''1. **Concise**: Write A.\<newline>2. **Detailed**: Write B.\<newline>3. **Structured**:  \<newline>4. **Creative**: Write D.\<newline>''"

definition response_without_concise :: string where
  "response_without_concise =
     ''Here are your prompts:\<newline>2. **Detailed**: Write B.\<newline>3. **Structured**: Write C.\<newline>4. **Creative**: Write D.''"

definition response_spaced :: string where
  "response_spaced = ''**Concise**: A **Detailed**: B **Structured**: **Creative**: D''"

text \<open>Two tested variants for the report.\<close>

definition tested_example :: "tested_prompt list" where
  "tested_example =
     [\<lparr>pd_id = 1, pd_style = ''Concise'', pd_prompt = ''Write A.'',
       pd_output = ''Iteration 1: Write it. Done! ok'', pd_score = 30\<rparr>,
      \<lparr>pd_id = 2, pd_style = ''Detailed'', pd_prompt = ''Write B.'',
       pd_output = ''Error: rate limit'', pd_score = 0\<rparr>]"

text \<open>
  What the test calls of one run return, variant after variant, and the world they
  leave: the answer of \<^verbatim>\<open>test_prompt\<close> or the exception it raises.
\<close>

fun test_outcomes ::
  "('c, 'w) models_config \<Rightarrow> string \<Rightarrow> int \<Rightarrow> prompt_data list \<Rightarrow> 'w
   \<Rightarrow> (exn + string) list \<times> 'w" where
  "test_outcomes mc model iterations [] w = ([], w)"
| "test_outcomes mc model iterations (prompt_data # rest) w =
     (case test_prompt mc (pd_prompt prompt_data) model iterations w of
        (outcome, w') \<Rightarrow>
          (case test_outcomes mc model iterations rest w' of
             (outcomes, w'') \<Rightarrow> (outcome # outcomes, w'')))"

text \<open>
  A configuration whose client answers the generation request with a response in order,
  raises on its third call, the test of the second variant, and answers every other
  call with a short text.
\<close>

definition mc_flaky :: "(string, nat) models_config" where
  "mc_flaky =
     \<lparr>MODEL_CONFIG = [''m''], get_model_client = Inr,
      complete = (\<lambda>client prompt w.
        (if w = 0 then Inr response_in_order
         else if w = 2 then Inl (ModelError ''rate limit'')
         else Inr ''Write it. Done! ok'', Suc w))\<rparr>"

section \<open>Properties of the scorer\<close>

lemma runs_word: "\<forall>c\<in>set w. P c \<Longrightarrow> runs P cur (w @ rest) = runs P (cur @ w) rest"
  by (induction w arbitrary: cur) auto

lemma runs_skip: "\<forall>c\<in>set seps. \<not> P c \<Longrightarrow> runs P [] (seps @ rest) = runs P [] rest"
  by (induction seps) auto

lemma runs_replicate:
  assumes "\<forall>c\<in>set w. P c" and "w \<noteq> []" and "\<not> P s" and "\<forall>c\<in>set seps. \<not> P c"
  shows "runs P [] (concat (replicate n (w @ s # seps))) = replicate n w"
proof (induction n)
  case 0
  show ?case by simp
next
  case (Suc n)
  let ?rest = "concat (replicate n (w @ s # seps))"
  have "runs P [] (concat (replicate (Suc n) (w @ s # seps))) = runs P [] (w @ s # seps @ ?rest)"
    by simp
  also have "\<dots> = runs P w (s # seps @ ?rest)"
    using runs_word [OF assms(1), of "[]"] by simp
  also have "\<dots> = w # runs P [] (seps @ ?rest)"
    using assms(2,3) by simp
  also have "\<dots> = w # runs P [] ?rest"
    using runs_skip [OF assms(4)] by simp
  finally show ?case using Suc by simp
qed

lemma filter_concat_replicate:
  "length (filter Q (concat (replicate n w))) = n * length (filter Q w)"
  by (induction n) auto

lemma str_lower_concat_replicate:
  "str_lower (concat (replicate n w)) = concat (replicate n (str_lower w))"
  by (induction n) (auto simp: str_lower_def)

lemma re_search_from_no_head:
  assumes "\<forall>w\<in>set ws. w \<noteq> [] \<and> hd w \<notin> set s"
  shows "\<not> re_search_from ws prev s"
  using assms
proof (induction s arbitrary: prev)
  case Nil
  then show ?case by (auto simp: list_ex_iff match_word_here_def)
next
  case (Cons c cs)
  have "\<not> list_ex (match_word_here prev (c # cs)) ws"
  proof
    assume "list_ex (match_word_here prev (c # cs)) ws"
    then obtain w where w: "w \<in> set ws" "prefix w (c # cs)"
      by (auto simp: list_ex_iff match_word_here_def)
    with Cons.prems have "w \<noteq> []" "hd w \<noteq> c" by auto
    with w(2) show False by (cases w) auto
  qed
  moreover have "\<not> re_search_from ws (Some c) cs"
    using Cons by auto
  ultimately show ?case by simp
qed

lemma clarity_points_range: "0 \<le> clarity_points output \<and> clarity_points output \<le> 40"
  by (simp add: clarity_points_def)

lemma relevance_points_range:
  "0 \<le> relevance_points output prompt \<and> relevance_points output prompt \<le> 30"
  by (simp add: relevance_points_def)

lemma length_points_range: "0 \<le> length_points output \<and> length_points output \<le> 20"
  by (simp add: length_points_def Let_def)

text \<open>
  C4, as the code has it: the empty output has no banned word, which earns the 10 points
  of the second clarity test; it fails the first clarity test, the relevance tests and
  the length tests. Its score is 10 for every prompt.
\<close>

theorem score_output_empty: "score_output [] prompt = 10"
  by (simp add: score_output_def clarity_points_def relevance_points_def length_points_def
      word_count_def str_split_def re_findall_class_def str_lower_def re_search_whole_word_def
      match_word_here_def keyword_ratio_def common_keywords_def output_keywords_def
      re_findall_words_def)

text \<open>C4, as stated, fails: the score of the empty output is not 0.\<close>

theorem score_output_empty_not_zero: "score_output [] ''Write a blog about AI trends'' \<noteq> 0"
  by (simp add: score_output_def clarity_points_def relevance_points_def length_points_def
      word_count_def str_split_def re_findall_class_def str_lower_def re_search_whole_word_def
      match_word_here_def keyword_ratio_def common_keywords_def output_keywords_def
      re_findall_words_def)

text \<open>
  C5: two evaluations of the scorer on the same output and prompt give the same score,
  whatever has been logged before each of them; the score is the value of
  \<open>score_output\<close>, an integer between 0 and 100; and the only effect of an evaluation
  is the one line it adds to the log.
\<close>

theorem score_output_logged_deterministic_range:
  "fst (score_output_logged output prompt log_lines) = fst (score_output_logged output prompt log_lines')
   \<and> fst (score_output_logged output prompt log_lines) = score_output output prompt
   \<and> 0 \<le> fst (score_output_logged output prompt log_lines)
   \<and> fst (score_output_logged output prompt log_lines) \<le> 100
   \<and> snd (score_output_logged output prompt log_lines) =
       log_lines @ [''Scored output: ''
              @ str_int (clarity_points output + relevance_points output prompt + length_points output)
              @ ''/100'']"
  using clarity_points_range [of "output"] relevance_points_range [of "output" prompt]
    length_points_range [of "output"]
  by (simp add: score_output_logged_def score_output_def Let_def)

theorem score_output_logged_deterministic_range_witness:
  "fst (score_output_logged ''AI trends.'' ''trends'' []) =
     fst (score_output_logged ''AI trends.'' ''trends'' [''Scored output: 90/100''])
   \<and> 0 \<le> fst (score_output_logged ''AI trends.'' ''trends'' [])
   \<and> fst (score_output_logged ''AI trends.'' ''trends'' []) \<le> 100"
  using score_output_logged_deterministic_range
    [of "''AI trends.''" "''trends''" "[]" "[''Scored output: 90/100'']"]
  by simp

text \<open>
  C7: an output of exactly 100 words with more than one of the marks \<^verbatim>\<open>.\<close>, \<^verbatim>\<open>!\<close>,
  \<^verbatim>\<open>?\<close>, without the whole words lorem, ipsum and error, and sharing more than half of
  the prompt's keywords, scores 30 + 10 + 30 + 20 = 90.
\<close>

theorem score_output_ninety:
  assumes "word_count output = 100"
    and "length (re_findall_class ''.!?'' output) > 1"
    and "\<not> re_search_whole_word [''lorem'', ''ipsum'', ''error''] (str_lower output)"
    and "keyword_ratio output prompt > 1 / 2"
  shows "score_output output prompt = 90"
  using assms
  by (simp add: score_output_def clarity_points_def relevance_points_def length_points_def
      word_count_def)

theorem score_output_ninety_witness:
  "score_output (concat (replicate 100 ''ok. '')) ''Ok'' = 90"
proof -
  let ?out = "concat (replicate 100 ''ok. '')"
  have split: "str_split ?out = replicate 100 ''ok.''"
    unfolding str_split_def
    using runs_replicate [of "''ok.''" "\<lambda>c. \<not> isspace c" "CHR '' ''" "[]" 100]
    by (simp add: isspace_def code_point_def)
  have h1: "word_count ?out = 100"
    by (simp add: word_count_def split)
  have h2: "length (re_findall_class ''.!?'' ?out) > 1"
    by (simp add: re_findall_class_def filter_concat_replicate)
  have "str_lower ''ok. '' = ''ok. ''"
    by (simp add: str_lower_def lower_char_def code_point_def)
  then have low: "str_lower ?out = ?out"
    by (simp only: str_lower_concat_replicate)
  have h3: "\<not> re_search_whole_word [''lorem'', ''ipsum'', ''error''] (str_lower ?out)"
    unfolding re_search_whole_word_def
    by (rule re_search_from_no_head) (simp add: low)
  have "re_findall_words ?out = replicate 100 ''ok''"
    unfolding re_findall_words_def
    using runs_replicate [of "''ok''" isword "CHR ''.''" "'' ''" 100]
    by (simp add: isword_def code_point_def)
  then have out_kw: "output_keywords ?out = {''ok''}"
    by (simp add: output_keywords_def low)
  have "str_lower ''Ok'' = ''ok''"
    by code_simp
  then have prompt_kw: "prompt_keywords ''Ok'' = {''ok''}"
    by (simp add: prompt_keywords_def re_findall_words_def code_point_def isword_def)
  have h4: "keyword_ratio ?out ''Ok'' > 1 / 2"
    by (simp add: keyword_ratio_def common_keywords_def out_kw prompt_kw)
  show ?thesis
    using score_output_ninety [OF h1 h2 h3 h4] .
qed

section \<open>Properties of the generation request\<close>

lemma generate_meta_prompt_contains_modifier:
  "sublist (creativity_modifier creativity_level)
     (generate_meta_prompt rough_prompt creativity_level)"
proof -
  have "\<exists>pre post. generate_meta_prompt rough_prompt creativity_level
          = pre @ creativity_modifier creativity_level @ post"
    unfolding generate_meta_prompt_def
    by (metis append.assoc)
  then obtain pre post where
    "generate_meta_prompt rough_prompt creativity_level
       = pre @ creativity_modifier creativity_level @ post"
    by blast
  then show ?thesis
    by (simp only: sublist_appendI)
qed

text \<open>
  \<^verbatim>\<open>generate_prompts\<close> sends nothing when it gets no client, and its meta-request
  otherwise, whatever the client does with it.
\<close>

lemma requests_sent_cases:
  "requests_sent mc rough_prompt creativity_level w =
     (case MODEL_CONFIG mc of
        [] \<Rightarrow> []
      | model # _ \<Rightarrow>
          (case get_model_client mc model of
             Inl e \<Rightarrow> []
           | Inr client \<Rightarrow> [generate_meta_prompt rough_prompt creativity_level]))"
  by (simp add: requests_sent_def generate_prompts_def complete_first_model_def recording_def
      split: list.splits sum.splits prod.splits)

text \<open>
  C8: for every rough idea, the meta-request that \<^verbatim>\<open>generate_prompts\<close> builds, and
  every request it sends to the model, contains the phrase "highly creative and
  innovative" when the creativity level is above 7 (so at 8), and the phrase "clear and
  straightforward" when it is at most 4 (so at 3); and when the first configured model
  has a client, what it sends is that meta-request, once.
\<close>

theorem generate_prompts_request_modifier:
  "(7 < creativity_level \<longrightarrow>
      sublist ''highly creative and innovative'' (generate_meta_prompt rough_prompt creativity_level)
      \<and> (\<forall>request \<in> set (requests_sent mc rough_prompt creativity_level w).
            sublist ''highly creative and innovative'' request))
   \<and> (creativity_level \<le> 4 \<longrightarrow>
      sublist ''clear and straightforward'' (generate_meta_prompt rough_prompt creativity_level)
      \<and> (\<forall>request \<in> set (requests_sent mc rough_prompt creativity_level w).
            sublist ''clear and straightforward'' request))
   \<and> (\<forall>model rest client.
        MODEL_CONFIG mc = model # rest \<and> get_model_client mc model = Inr client \<longrightarrow>
        requests_sent mc rough_prompt creativity_level w
          = [generate_meta_prompt rough_prompt creativity_level])"
proof -
  have sent: "set (requests_sent mc rough_prompt creativity_level w)
      \<subseteq> {generate_meta_prompt rough_prompt creativity_level}"
    by (auto simp: requests_sent_cases split: list.splits sum.splits)
  have high: "7 < creativity_level \<Longrightarrow>
      sublist ''highly creative and innovative'' (generate_meta_prompt rough_prompt creativity_level)"
    using generate_meta_prompt_contains_modifier [of creativity_level rough_prompt]
    by (simp add: creativity_modifier_def)
  have low: "creativity_level \<le> 4 \<Longrightarrow>
      sublist ''clear and straightforward'' (generate_meta_prompt rough_prompt creativity_level)"
    using generate_meta_prompt_contains_modifier [of creativity_level rough_prompt]
    by (simp add: creativity_modifier_def)
  have one: "\<forall>model rest client.
        MODEL_CONFIG mc = model # rest \<and> get_model_client mc model = Inr client \<longrightarrow>
        requests_sent mc rough_prompt creativity_level w
          = [generate_meta_prompt rough_prompt creativity_level]"
    by (simp add: requests_sent_cases)
  from sent high low one show ?thesis
    by blast
qed

theorem generate_prompts_request_modifier_witness:
  "requests_sent mc_counting ''Write a blog about AI trends'' 8 (0::nat)
     = [generate_meta_prompt ''Write a blog about AI trends'' 8]
   \<and> sublist ''highly creative and innovative'' (generate_meta_prompt ''Write a blog about AI trends'' 8)
   \<and> requests_sent mc_counting ''Write a blog about AI trends'' 3 (0::nat)
     = [generate_meta_prompt ''Write a blog about AI trends'' 3]
   \<and> sublist ''clear and straightforward'' (generate_meta_prompt ''Write a blog about AI trends'' 3)"
proof -
  have c: "MODEL_CONFIG mc_counting = ''m'' # [] \<and> get_model_client mc_counting ''m'' = Inr ''m''"
    by (simp add: mc_counting_def)
  from generate_prompts_request_modifier [of 8 "''Write a blog about AI trends''" mc_counting 0]
    generate_prompts_request_modifier [of 3 "''Write a blog about AI trends''" mc_counting 0] c
  show ?thesis
    by simp
qed

section \<open>Properties of the refiner\<close>

text \<open>
  C6: when the model call of \<^verbatim>\<open>refine_prompt\<close> raises, whether in looking up the
  first configured model, in getting its client or in the completion, the function
  returns the prompt it was given, unchanged, and raises nothing.
\<close>

theorem refine_prompt_fallback:
  assumes "complete_first_model mc (refine_meta_prompt prompt output score) w = (Inl e, w')"
  shows "refine_prompt mc prompt output score w = (prompt, w')"
  using assms by (simp add: refine_prompt_def)

theorem refine_prompt_fallback_witness:
  "refine_prompt mc_down ''Write A. '' ''Iteration 1: ok'' 30 (0::nat) = (''Write A. '', 1)"
proof -
  have "complete_first_model mc_down (refine_meta_prompt ''Write A. '' ''Iteration 1: ok'' 30) (0::nat)
          = (Inl (ModelError ''timeout''), 1)"
    by (simp add: complete_first_model_def mc_down_def)
  then show ?thesis by (rule refine_prompt_fallback)
qed

section \<open>Properties of the test stage\<close>

lemma test_loop_successive:
  "successive_outputs mc client prompt k w = Some (outs, w') \<Longrightarrow>
   test_loop mc client prompt k (int m) acc w =
     (Inr (acc @ map (\<lambda>(n, output). ''Iteration '' @ str_int (int n) @ '': '' @ output)
                   (enumerate (Suc m) outs)), w')
   \<and> length outs = k"
proof (induction k arbitrary: m acc w outs)
  case 0
  then show ?case by simp
next
  case (Suc k)
  from Suc.prems obtain out w1 rest where
    c: "complete mc client prompt w = (Inr out, w1)"
    and r: "successive_outputs mc client prompt k w1 = Some (rest, w')"
    and o: "outs = out # rest"
    by (auto split: prod.splits sum.splits option.splits)
  have "int m + 1 = int (Suc m)" by simp
  with Suc.IH [OF r, of "Suc m"] c o show ?case
    by (simp only: test_loop.simps) simp
qed

text \<open>
  C10, as the code has it: when \<^verbatim>\<open>get_model_client\<close> hands out a client for the
  model, \<^verbatim>\<open>test_prompt\<close> for 0 iterations returns the empty text and leaves the world
  as it was (no completion is made); for \<open>n \<ge> 0\<close> iterations whose completions all
  succeed it returns the \<open>n\<close> answers, labelled "Iteration 1: " to "Iteration n: " in
  call order and joined by single newlines.
\<close>

theorem test_prompt_iterations:
  assumes "get_model_client mc model = Inr client"
  shows "test_prompt mc prompt model 0 w = (Inr [], w)
    \<and> (\<forall>n outputs w'.
         0 \<le> n \<and> successive_outputs mc client prompt (nat n) w = Some (outputs, w') \<longrightarrow>
         length outputs = nat n
         \<and> test_prompt mc prompt model n w = (Inr (str_join ''\<newline>'' (labelled outputs)), w'))"
proof (intro conjI allI impI)
  show "test_prompt mc prompt model 0 w = (Inr [], w)"
    using assms by (simp add: test_prompt_def)
next
  fix n outputs w'
  assume a: "0 \<le> n \<and> successive_outputs mc client prompt (nat n) w = Some (outputs, w')"
  from test_loop_successive [of mc client prompt "nat n" w outputs w' 0 "[]"] a
  have l: "test_loop mc client prompt (nat n) 0 [] w = (Inr (labelled outputs), w')"
    and len: "length outputs = nat n"
    by (simp_all add: labelled_def)
  show "length outputs = nat n" by (rule len)
  show "test_prompt mc prompt model n w = (Inr (str_join ''\<newline>'' (labelled outputs)), w')"
    using assms l by (simp add: test_prompt_def)
qed

theorem test_prompt_iterations_witness:
  "test_prompt mc_counting ''p'' ''m'' 0 (0::nat) = (Inr [], 0)
   \<and> test_prompt mc_counting ''p'' ''m'' 2 (0::nat) = (Inr ''Iteration 1: a\<newline>Iteration 2: aa'', 2)"
proof -
  have g: "get_model_client mc_counting ''m'' = Inr ''m''"
    by (simp add: mc_counting_def)
  have s: "successive_outputs mc_counting ''m'' ''p'' (nat 2) (0::nat) = Some ([''a'', ''aa''], 2)"
    by (simp add: mc_counting_def eval_nat_numeral)
  have "str_int 1 = ''1''" "str_int 2 = ''2''" by code_simp+
  then have j: "str_join ''\<newline>'' (labelled [''a'', ''aa'']) = ''Iteration 1: a\<newline>Iteration 2: aa''"
    by (simp add: labelled_def)
  from test_prompt_iterations [OF g, of "''p''" 0] s j show ?thesis
    by auto
qed

text \<open>
  C10, as stated, fails: for 0 iterations and a model for which \<^verbatim>\<open>get_model_client\<close>
  raises, \<^verbatim>\<open>test_prompt\<close> raises that exception (line 88 runs before the loop, and the
  handler raises again) and does not return the empty text.
\<close>

theorem test_prompt_lookup_fails:
  "test_prompt mc_unknown ''p'' ''gpt'' 0 (0::nat) = (Inl (KeyError ''gpt''), 0)
   \<and> test_prompt mc_unknown ''p'' ''gpt'' 0 (0::nat) \<noteq> (Inr [], 0)"
  by (simp add: test_prompt_def mc_unknown_def)

section \<open>Properties of the parser\<close>

text \<open>A result of \<^verbatim>\<open>find\<close> that is not negative is a position where the text searched for starts.\<close>

lemma str_find_prefix:
  "str_find s sub = int n \<Longrightarrow> n \<le> length s \<and> prefix sub (drop n s)"
proof (induction s arbitrary: n)
  case Nil
  then show ?case by (simp split: if_splits)
next
  case (Cons c cs)
  show ?case
  proof (cases "prefix sub (c # cs)")
    case True
    with Cons.prems show ?thesis by simp
  next
    case False
    with Cons.prems have r: "\<not> str_find cs sub < 0" and n: "str_find cs sub + 1 = int n"
      by (auto simp: Let_def split: if_splits)
    then obtain m where m: "n = Suc m" "str_find cs sub = int m"
      by (cases n) auto
    with Cons.IH [of m] show ?thesis by simp
  qed
qed

lemma drop_prefix: "prefix m (drop i s) \<Longrightarrow> drop i s = m @ drop (i + length m) s"
proof -
  assume "prefix m (drop i s)"
  then obtain r where r: "drop i s = m @ r" by (auto simp: prefix_def)
  then have "drop (length m) (drop i s) = r" by simp
  then have "drop (i + length m) s = r" by (simp add: add.commute)
  with r show ?thesis by simp
qed

lemma drop_between: "a \<le> b \<Longrightarrow> drop a s = between s a b @ drop b s"
proof -
  assume "a \<le> b"
  then have "drop (b - a) (drop a s) = drop b s" by simp
  then show ?thesis
    unfolding between_def by (metis append_take_drop_id)
qed

lemma str_slice_between: "str_slice s (int a) (int b) = between s a b"
proof -
  have "take (min b (length s) - min a (length s)) (drop (min a (length s)) s) = take (b - a) (drop a s)"
  proof (cases "a \<le> length s")
    case True
    then show ?thesis by (cases "b \<le> length s") (simp_all add: min_def)
  next
    case False
    then show ?thesis by simp
  qed
  then show ?thesis
    by (simp add: str_slice_def clamp_index_def between_def)
qed

lemma str_slice_to_end: "str_slice s (int a) (int (length s)) = drop a s"
  by (simp add: str_slice_between between_def)

text \<open>
  A marker and the marker of the next style cannot overlap: the later one starts behind
  the end of the earlier one.
\<close>

lemma markers_apart_CD:
  assumes "prefix (marker ''Concise'') t" and "0 < d" and "d < 12"
  shows "\<not> prefix (marker ''Detailed'') (drop d t)"
proof -
  from assms(1) obtain r where t: "t = ''**Concise**:'' @ r"
    by (auto simp: prefix_def marker_def)
  have "\<forall>d<12. 0 < d \<longrightarrow> \<not> prefix ''**Detailed**:'' (drop d (''**Concise**:'' @ r))"
    by (simp add: eval_nat_numeral All_less_Suc)
  with assms(2,3) t show ?thesis by (simp add: marker_def)
qed


lemma markers_apart_DS:
  assumes "prefix (marker ''Detailed'') t" and "0 < d" and "d < 13"
  shows "\<not> prefix (marker ''Structured'') (drop d t)"
proof -
  from assms(1) obtain r where t: "t = ''**Detailed**:'' @ r"
    by (auto simp: prefix_def marker_def)
  have "\<forall>d<13. 0 < d \<longrightarrow> \<not> prefix ''**Structured**:'' (drop d (''**Detailed**:'' @ r))"
    by (simp add: eval_nat_numeral All_less_Suc)
  with assms(2,3) t show ?thesis by (simp add: marker_def)
qed

lemma markers_apart_SC:
  assumes "prefix (marker ''Structured'') t" and "0 < d" and "d < 15"
  shows "\<not> prefix (marker ''Creative'') (drop d t)"
proof -
  from assms(1) obtain r where t: "t = ''**Structured**:'' @ r"
    by (auto simp: prefix_def marker_def)
  have "\<forall>d<15. 0 < d \<longrightarrow> \<not> prefix ''**Creative**:'' (drop d (''**Structured**:'' @ r))"
    by (simp add: eval_nat_numeral All_less_Suc)
  with assms(2,3) t show ?thesis by (simp add: marker_def)
qed

lemma later_marker_behind:
  assumes apart: "\<And>d. 0 < d \<Longrightarrow> d < n \<Longrightarrow> \<not> prefix mb (drop d (drop i s))"
    and "prefix mb (drop j s)" and "i < j"
  shows "i + n \<le> j"
proof (rule ccontr)
  assume "\<not> i + n \<le> j"
  with \<open>i < j\<close> have d: "0 < j - i" "j - i < n" by auto
  from \<open>i < j\<close> have "drop (j - i) (drop i s) = drop j s" by simp
  with apart [OF d] assms(2) show False by simp
qed

lemma parse_response_unfold:
  "parse_response response =
     [parse_style response 1 ''Concise'', parse_style response 2 ''Detailed'',
      parse_style response 3 ''Structured'', parse_style response 4 ''Creative'']"
  by (simp add: parse_response_def PROMPT_STYLES_def eval_nat_numeral)

lemma parse_response_length: "length (parse_response response) = 4"
  by (simp add: parse_response_unfold)

text \<open>
  C2, as the code has it: when the four markers occur in the response and their first
  occurrences are in the order Concise, Detailed, Structured, Creative, the response is
  made of the text before the first marker, the four markers and the four segments
  between them (the last one up to the end), and the parser returns exactly four
  variants with the ids 1 to 4 and the four styles in order; the prompt text of each is
  its segment without leading and trailing blanks, or the style's sentinel when the
  segment is empty or blank.
\<close>

theorem parse_response_in_order:
  assumes f1: "str_find response (marker ''Concise'') = int i1"
    and f2: "str_find response (marker ''Detailed'') = int i2"
    and f3: "str_find response (marker ''Structured'') = int i3"
    and f4: "str_find response (marker ''Creative'') = int i4"
    and lt: "i1 < i2" "i2 < i3" "i3 < i4"
  shows "response =
           take i1 response @ marker ''Concise'' @ between response (i1 + 12) i2
           @ marker ''Detailed'' @ between response (i2 + 13) i3
           @ marker ''Structured'' @ between response (i3 + 15) i4
           @ marker ''Creative'' @ drop (i4 + 13) response
         \<and> parse_response response =
           [\<lparr>pd_id = 1, pd_style = ''Concise'',
             pd_prompt = stripped_or_sentinel ''Concise'' (between response (i1 + 12) i2)\<rparr>,
            \<lparr>pd_id = 2, pd_style = ''Detailed'',
             pd_prompt = stripped_or_sentinel ''Detailed'' (between response (i2 + 13) i3)\<rparr>,
            \<lparr>pd_id = 3, pd_style = ''Structured'',
             pd_prompt = stripped_or_sentinel ''Structured'' (between response (i3 + 15) i4)\<rparr>,
            \<lparr>pd_id = 4, pd_style = ''Creative'',
             pd_prompt = stripped_or_sentinel ''Creative'' (drop (i4 + 13) response)\<rparr>]"
proof
  note p1 = str_find_prefix [OF f1] and p2 = str_find_prefix [OF f2]
    and p3 = str_find_prefix [OF f3] and p4 = str_find_prefix [OF f4]
  have len: "length (marker ''Concise'') = 12" "length (marker ''Detailed'') = 13"
    "length (marker ''Structured'') = 15" "length (marker ''Creative'') = 13"
    by (simp_all add: marker_def)
  have o12: "i1 + 12 \<le> i2"
    using markers_apart_CD [of "drop i1 response"] p1 p2 lt(1)
    by (intro later_marker_behind [where mb = "marker ''Detailed''"]) auto
  have o23: "i2 + 13 \<le> i3"
    using markers_apart_DS [of "drop i2 response"] p2 p3 lt(2)
    by (intro later_marker_behind [where mb = "marker ''Structured''"]) auto
  have o34: "i3 + 15 \<le> i4"
    using markers_apart_SC [of "drop i3 response"] p3 p4 lt(3)
    by (intro later_marker_behind [where mb = "marker ''Creative''"]) auto
  have "response = take i1 response @ drop i1 response" by simp
  also have "drop i1 response = marker ''Concise'' @ drop (i1 + 12) response"
    using drop_prefix [of "marker ''Concise''" i1 response] p1 len by simp
  also have "drop (i1 + 12) response = between response (i1 + 12) i2 @ drop i2 response"
    by (rule drop_between [OF o12])
  also have "drop i2 response = marker ''Detailed'' @ drop (i2 + 13) response"
    using drop_prefix [of "marker ''Detailed''" i2 response] p2 len by simp
  also have "drop (i2 + 13) response = between response (i2 + 13) i3 @ drop i3 response"
    by (rule drop_between [OF o23])
  also have "drop i3 response = marker ''Structured'' @ drop (i3 + 15) response"
    using drop_prefix [of "marker ''Structured''" i3 response] p3 len by simp
  also have "drop (i3 + 15) response = between response (i3 + 15) i4 @ drop i4 response"
    by (rule drop_between [OF o34])
  also have "drop i4 response = marker ''Creative'' @ drop (i4 + 13) response"
    using drop_prefix [of "marker ''Creative''" i4 response] p4 len by simp
  finally show "response =
           take i1 response @ marker ''Concise'' @ between response (i1 + 12) i2
           @ marker ''Detailed'' @ between response (i2 + 13) i3
           @ marker ''Structured'' @ between response (i3 + 15) i4
           @ marker ''Creative'' @ drop (i4 + 13) response" .
next
  have len: "length (marker ''Concise'') = 12" "length (marker ''Detailed'') = 13"
    "length (marker ''Structured'') = 15" "length (marker ''Creative'') = 13"
    by (simp_all add: marker_def)
  have s1: "str_slice response (int i1 + 12) (int i2) = between response (i1 + 12) i2"
    using str_slice_between [of response "i1 + 12" i2] by simp
  have s2: "str_slice response (int i2 + 13) (int i3) = between response (i2 + 13) i3"
    using str_slice_between [of response "i2 + 13" i3] by simp
  have s3: "str_slice response (int i3 + 15) (int i4) = between response (i3 + 15) i4"
    using str_slice_between [of response "i3 + 15" i4] by simp
  have s4: "str_slice response (int i4 + 13) (int (length response)) = drop (i4 + 13) response"
    using str_slice_to_end [of response "i4 + 13"] by simp
  have c1: "parse_style response 1 ''Concise'' =
      \<lparr>pd_id = 1, pd_style = ''Concise'',
       pd_prompt = stripped_or_sentinel ''Concise'' (between response (i1 + 12) i2)\<rparr>"
    by (simp add: parse_style_def PROMPT_STYLES_def f1 f2 len s1 stripped_or_sentinel_def)
  have c2: "parse_style response 2 ''Detailed'' =
      \<lparr>pd_id = 2, pd_style = ''Detailed'',
       pd_prompt = stripped_or_sentinel ''Detailed'' (between response (i2 + 13) i3)\<rparr>"
    by (simp add: parse_style_def PROMPT_STYLES_def f2 f3 len s2 stripped_or_sentinel_def)
  have c3: "parse_style response 3 ''Structured'' =
      \<lparr>pd_id = 3, pd_style = ''Structured'',
       pd_prompt = stripped_or_sentinel ''Structured'' (between response (i3 + 15) i4)\<rparr>"
    by (simp add: parse_style_def PROMPT_STYLES_def f3 f4 len s3 stripped_or_sentinel_def)
  have c4: "parse_style response 4 ''Creative'' =
      \<lparr>pd_id = 4, pd_style = ''Creative'',
       pd_prompt = stripped_or_sentinel ''Creative'' (drop (i4 + 13) response)\<rparr>"
    by (simp add: parse_style_def PROMPT_STYLES_def f4 len s4 stripped_or_sentinel_def)
  show "parse_response response =
           [\<lparr>pd_id = 1, pd_style = ''Concise'',
             pd_prompt = stripped_or_sentinel ''Concise'' (between response (i1 + 12) i2)\<rparr>,
            \<lparr>pd_id = 2, pd_style = ''Detailed'',
             pd_prompt = stripped_or_sentinel ''Detailed'' (between response (i2 + 13) i3)\<rparr>,
            \<lparr>pd_id = 3, pd_style = ''Structured'',
             pd_prompt = stripped_or_sentinel ''Structured'' (between response (i3 + 15) i4)\<rparr>,
            \<lparr>pd_id = 4, pd_style = ''Creative'',
             pd_prompt = stripped_or_sentinel ''Creative'' (drop (i4 + 13) response)\<rparr>]"
    by (simp only: parse_response_unfold c1 c2 c3 c4)
qed


theorem parse_response_in_order_witness:
  "parse_response response_in_order =
     [\<lparr>pd_id = 1, pd_style = ''Concise'', pd_prompt = ''Write A.\<newline>2.''\<rparr>,
      \<lparr>pd_id = 2, pd_style = ''Detailed'', pd_prompt = ''Write B.\<newline>3.''\<rparr>,
      \<lparr>pd_id = 3, pd_style = ''Structured'', pd_prompt = ''4.''\<rparr>,
      \<lparr>pd_id = 4, pd_style = ''Creative'', pd_prompt = ''Write D.''\<rparr>]"
proof -
  have f1: "str_find response_in_order (marker ''Concise'') = int 3"
    and f2: "str_find response_in_order (marker ''Detailed'') = int 28"
    and f3: "str_find response_in_order (marker ''Structured'') = int 54"
    and f4: "str_find response_in_order (marker ''Creative'') = int 75"
    by code_simp+
  have e: "stripped_or_sentinel ''Concise'' (between response_in_order 15 28) = ''Write A.\<newline>2.''"
    "stripped_or_sentinel ''Detailed'' (between response_in_order 41 54) = ''Write B.\<newline>3.''"
    "stripped_or_sentinel ''Structured'' (between response_in_order 69 75) = ''4.''"
    "stripped_or_sentinel ''Creative'' (drop 88 response_in_order) = ''Write D.''"
    by code_simp+
  from parse_response_in_order [OF f1 f2 f3 f4] show ?thesis
    by (simp add: e)
qed

text \<open>
  C2, as stated, fails: with the four markers in order, the first prompt text is not the
  exact text between its marker and the next one (the blanks around it are gone), and the
  third, whose segment is blank, is the sentinel.
\<close>

theorem parse_response_spaced:
  "str_find response_spaced (marker ''Concise'') = 0
   \<and> str_find response_spaced (marker ''Detailed'') = 15
   \<and> str_find response_spaced (marker ''Structured'') = 31
   \<and> str_find response_spaced (marker ''Creative'') = 47
   \<and> between response_spaced 12 15 = '' A ''
   \<and> pd_prompt (parse_response response_spaced ! 0) = ''A''
   \<and> pd_prompt (parse_response response_spaced ! 0) \<noteq> between response_spaced 12 15
   \<and> pd_prompt (parse_response response_spaced ! 2) = sentinel ''Structured''"
  by code_simp

text \<open>
  C3 at a response without the Concise marker: \<^verbatim>\<open>find\<close> returns -1, the slice starts
  at position 11, and the first variant gets the text found there instead of the
  sentinel. The parser still returns four variants.
\<close>

theorem parse_response_without_concise:
  "str_find response_without_concise (marker ''Concise'') = - 1
   \<and> length (parse_response response_without_concise) = 4
   \<and> pd_prompt (parse_response response_without_concise ! 0) = ''ur prompts:\<newline>2.''
   \<and> pd_prompt (parse_response response_without_concise ! 0) \<noteq> sentinel ''Concise''"
  by code_simp

section \<open>Properties of the report\<close>

text \<open>
  The decimal text of an integer determines the integer, so a line of the report that
  carries \<^verbatim>\<open>str(m)\<close> states \<open>m\<close> and no other number.
\<close>

lemma str_nat_digits: "str_nat n \<noteq> [] \<and> set (str_nat n) \<subseteq> set ''0123456789''"
proof (induction n rule: str_nat.induct)
  case (1 n)
  have d: "''0123456789'' ! (n mod 10) \<in> set ''0123456789''"
    by (rule nth_mem) simp
  show ?case
  proof (cases "n < 10")
    case True
    then have "''0123456789'' ! n \<in> set ''0123456789''"
      by (intro nth_mem) simp
    with True show ?thesis
      by (subst (1 2) str_nat.simps) simp
  next
    case False
    with "1" d show ?thesis
      by (subst (1 2) str_nat.simps) simp
  qed
qed

lemma digit_inj:
  assumes "a < 10" and "b < 10" and "''0123456789'' ! a = ''0123456789'' ! b"
  shows "a = b"
proof -
  have "distinct ''0123456789''" by simp
  with assms show ?thesis by (simp add: nth_eq_iff_index_eq)
qed

lemma str_nat_inj: "str_nat n = str_nat m \<Longrightarrow> n = m"
proof (induction n arbitrary: m rule: str_nat.induct)
  case (1 n)
  have ne: "\<And>k. str_nat k \<noteq> []" using str_nat_digits by blast
  show ?case
  proof (cases "n < 10")
    case n: True
    show ?thesis
    proof (cases "m < 10")
      case True
      with n "1.prems" show ?thesis
        by (subst (asm) (1 2) str_nat.simps) (simp add: digit_inj)
    next
      case False
      with n "1.prems" ne [of "m div 10"] show ?thesis
        by (subst (asm) (1 2) str_nat.simps) simp
    qed
  next
    case n: False
    show ?thesis
    proof (cases "m < 10")
      case True
      with n "1.prems" ne [of "n div 10"] show ?thesis
        by (subst (asm) (1 2) str_nat.simps) simp
    next
      case False
      with n "1.prems" have "str_nat (n div 10) = str_nat (m div 10)"
        and "''0123456789'' ! (n mod 10) = ''0123456789'' ! (m mod 10)"
        by (subst (asm) (1 2) str_nat.simps, simp)+
      with "1.IH" [OF n] have "n div 10 = m div 10" "n mod 10 = m mod 10"
        by (auto intro: digit_inj)
      then show ?thesis by (metis div_mult_mod_eq)
    qed
  qed
qed

lemma str_int_inj: "str_int i = str_int j \<Longrightarrow> i = j"
proof -
  assume e: "str_int i = str_int j"
  have nd: "\<And>k. hd (str_nat k) \<noteq> CHR ''-''"
  proof -
    fix k
    from str_nat_digits [of k] have "hd (str_nat k) \<in> set ''0123456789''"
      by (cases "str_nat k") auto
    then show "hd (str_nat k) \<noteq> CHR ''-''" by auto
  qed
  show ?thesis
  proof (cases "i < 0")
    case i: True
    show ?thesis
    proof (cases "j < 0")
      case True
      with i e have "nat (- i) = nat (- j)" by (simp add: str_int_def str_nat_inj)
      with i True show ?thesis by simp
    next
      case False
      with i e have "CHR ''-'' # str_nat (nat (- i)) = str_nat (nat j)"
        by (simp add: str_int_def)
      then have "hd (str_nat (nat j)) = CHR ''-''"
        by (metis list.sel(1))
      with nd [of "nat j"] show ?thesis by simp
    qed
  next
    case i: False
    show ?thesis
    proof (cases "j < 0")
      case True
      with i e have "str_nat (nat i) = CHR ''-'' # str_nat (nat (- j))"
        by (simp add: str_int_def)
      then have "hd (str_nat (nat i)) = CHR ''-''"
        by (metis list.sel(1))
      with nd [of "nat i"] show ?thesis by simp
    next
      case False
      with i e have "nat i = nat j" by (simp add: str_int_def str_nat_inj)
      with i False show ?thesis by simp
    qed
  qed
qed

lemma foldl_max_Max: "foldl max (x :: int) rest = Max (set (x # rest))"
proof -
  have "(\<lambda>a b. max b a) = (max :: int \<Rightarrow> int \<Rightarrow> int)"
    by (intro ext) (simp add: max.commute)
  then have "foldl max x rest = fold max rest x"
    by (simp add: foldl_conv_fold)
  then show ?thesis
    by (simp only: Max.set_eq_fold)
qed

text \<open>
  C9: for every non-empty sequence of tested variants the report is produced (no
  exception), and its third line from the end is "Highest score: m/100." with \<open>m\<close> the
  maximum of the variants' scores.
\<close>

theorem generate_report_highest_score:
  assumes "prompts \<noteq> []"
  shows "\<exists>body. generate_report now rough_prompt prompts refined_prompt =
     Inr (body
       @ ''\<newline>Highest score: '' @ str_int (Max (set (map pd_score prompts))) @ ''/100.\<newline>''
       @ ''Refinement improved the best prompt based on test feedback.\<newline>''
       @ ''==================\<newline>'')"
proof -
  from assms obtain p ps where ps: "prompts = p # ps"
    by (cases prompts) auto
  have m: "py_max (map pd_score prompts) = Inr (Max (set (map pd_score prompts)))"
    unfolding ps py_max_def using foldl_max_Max [of "pd_score p" "map pd_score ps"] by simp
  show ?thesis
    unfolding generate_report_def Let_def m sum.case
    by (intro exI [of _ "_ @ ''.''"]) simp
qed

theorem generate_report_highest_score_witness:
  "\<exists>body. generate_report ''2025-01-01T00:00:00'' ''idea'' tested_example ''Better.'' =
     Inr (body
       @ ''\<newline>Highest score: 30/100.\<newline>''
       @ ''Refinement improved the best prompt based on test feedback.\<newline>''
       @ ''==================\<newline>'')"
proof -
  have n: "tested_example \<noteq> []"
    by (simp add: tested_example_def)
  have "Max (set (map pd_score tested_example)) = 30"
    by (simp add: tested_example_def)
  moreover have "str_int 30 = ''30''"
    by code_simp
  ultimately show ?thesis
    using generate_report_highest_score [OF n, of "''2025-01-01T00:00:00''" "''idea''" "''Better.''"]
    by simp
qed

section \<open>Properties of the pipeline\<close>

text \<open>The loop over the variants records each test outcome in its own variant.\<close>

lemma test_and_score_all_outcomes:
  assumes "test_outcomes mc model iterations prompts w = (outcomes, w')"
  shows "length outcomes = length prompts
    \<and> (\<exists>tested. test_and_score_all mc model iterations prompts w = (tested, w')
         \<and> length tested = length prompts
         \<and> (\<forall>i<length prompts.
               pd_id (tested ! i) = pd_id (prompts ! i)
               \<and> pd_style (tested ! i) = pd_style (prompts ! i)
               \<and> pd_prompt (tested ! i) = pd_prompt (prompts ! i)
               \<and> (case outcomes ! i of
                     Inr out \<Rightarrow>
                       pd_output (tested ! i) = out
                       \<and> pd_score (tested ! i) = score_output out (pd_prompt (prompts ! i))
                   | Inl e \<Rightarrow>
                       pd_output (tested ! i) = ''Error: '' @ str_exn e
                       \<and> pd_score (tested ! i) = 0)))"
  using assms
proof (induction prompts arbitrary: w outcomes w')
  case Nil
  then show ?case by simp
next
  case (Cons p ps)
  obtain r w1 where r: "test_prompt mc (pd_prompt p) model iterations w = (r, w1)"
    by (cases "test_prompt mc (pd_prompt p) model iterations w") auto
  obtain rs w2 where rs: "test_outcomes mc model iterations ps w1 = (rs, w2)"
    by (cases "test_outcomes mc model iterations ps w1") auto
  from Cons.prems r rs have o: "outcomes = r # rs" and w: "w' = w2"
    by auto
  from Cons.IH [OF rs] obtain ts where
    ts: "test_and_score_all mc model iterations ps w1 = (ts, w2)"
      "length ts = length ps" "length rs = length ps"
    and each: "\<forall>i<length ps.
               pd_id (ts ! i) = pd_id (ps ! i)
               \<and> pd_style (ts ! i) = pd_style (ps ! i)
               \<and> pd_prompt (ts ! i) = pd_prompt (ps ! i)
               \<and> (case rs ! i of
                     Inr out \<Rightarrow>
                       pd_output (ts ! i) = out
                       \<and> pd_score (ts ! i) = score_output out (pd_prompt (ps ! i))
                   | Inl e \<Rightarrow>
                       pd_output (ts ! i) = ''Error: '' @ str_exn e
                       \<and> pd_score (ts ! i) = 0)"
    by auto
  define t where "t = fst (test_and_score mc model iterations p w)"
  have t: "test_and_score mc model iterations p w = (t, w1)"
    unfolding t_def using r by (cases r) (simp_all add: test_and_score_def)
  have tp: "pd_id t = pd_id p" "pd_style t = pd_style p" "pd_prompt t = pd_prompt p"
    unfolding t_def using r
    by (cases r; simp add: test_and_score_def prompt_data.extend_def tested_prompt.fields_def)+
  have tr: "(case r of
                Inr out \<Rightarrow> pd_output t = out \<and> pd_score t = score_output out (pd_prompt p)
              | Inl e \<Rightarrow> pd_output t = ''Error: '' @ str_exn e \<and> pd_score t = 0)"
    unfolding t_def using r
    by (cases r; simp add: test_and_score_def prompt_data.extend_def tested_prompt.fields_def)
  have run: "test_and_score_all mc model iterations (p # ps) w = (t # ts, w')"
    using t ts(1) w by simp
  have "\<forall>i<length (p # ps).
               pd_id ((t # ts) ! i) = pd_id ((p # ps) ! i)
               \<and> pd_style ((t # ts) ! i) = pd_style ((p # ps) ! i)
               \<and> pd_prompt ((t # ts) ! i) = pd_prompt ((p # ps) ! i)
               \<and> (case (r # rs) ! i of
                     Inr out \<Rightarrow>
                       pd_output ((t # ts) ! i) = out
                       \<and> pd_score ((t # ts) ! i) = score_output out (pd_prompt ((p # ps) ! i))
                   | Inl e \<Rightarrow>
                       pd_output ((t # ts) ! i) = ''Error: '' @ str_exn e
                       \<and> pd_score ((t # ts) ! i) = 0)"
  proof (intro allI impI)
    fix i assume "i < length (p # ps)"
    then show "pd_id ((t # ts) ! i) = pd_id ((p # ps) ! i)
               \<and> pd_style ((t # ts) ! i) = pd_style ((p # ps) ! i)
               \<and> pd_prompt ((t # ts) ! i) = pd_prompt ((p # ps) ! i)
               \<and> (case (r # rs) ! i of
                     Inr out \<Rightarrow>
                       pd_output ((t # ts) ! i) = out
                       \<and> pd_score ((t # ts) ! i) = score_output out (pd_prompt ((p # ps) ! i))
                   | Inl e \<Rightarrow>
                       pd_output ((t # ts) ! i) = ''Error: '' @ str_exn e
                       \<and> pd_score ((t # ts) ! i) = 0)"
      using tp tr each by (cases i) (auto split: sum.splits)
  qed
  with run ts(2,3) o show ?case by auto
qed

text \<open>
  The selection keeps the first variant whose score no other variant exceeds; \<open>seen\<close>
  are the variants already compared and \<open>c\<close> is the position of the best of them.
\<close>

lemma max_by_score_first_max:
  assumes "c < length seen" and "best = seen ! c"
    and "\<forall>i<length seen. pd_score (seen ! i) \<le> pd_score (seen ! c)"
    and "\<forall>i<c. pd_score (seen ! i) < pd_score (seen ! c)"
  shows "\<exists>b<length (seen @ rest).
           max_by_score best rest = (seen @ rest) ! b
           \<and> (\<forall>i<length (seen @ rest). pd_score ((seen @ rest) ! i) \<le> pd_score ((seen @ rest) ! b))
           \<and> (\<forall>i<b. pd_score ((seen @ rest) ! i) < pd_score ((seen @ rest) ! b))"
  using assms
proof (induction rest arbitrary: seen c best)
  case Nil
  then show ?case by auto
next
  case (Cons p ps)
  let ?seen = "seen @ [p]"
  show ?case
  proof (cases "pd_score p > pd_score best")
    case True
    have "\<exists>b<length (?seen @ ps).
           max_by_score p ps = (?seen @ ps) ! b
           \<and> (\<forall>i<length (?seen @ ps). pd_score ((?seen @ ps) ! i) \<le> pd_score ((?seen @ ps) ! b))
           \<and> (\<forall>i<b. pd_score ((?seen @ ps) ! i) < pd_score ((?seen @ ps) ! b))"
    proof (rule Cons.IH [of "length seen" ?seen p])
      show "length seen < length ?seen" by simp
      show "p = ?seen ! length seen" by simp
      show "\<forall>i<length ?seen. pd_score (?seen ! i) \<le> pd_score (?seen ! length seen)"
        using True Cons.prems by (auto simp: nth_append less_Suc_eq intro: order_trans less_imp_le)
      show "\<forall>i<length seen. pd_score (?seen ! i) < pd_score (?seen ! length seen)"
        using True Cons.prems by (auto simp: nth_append intro: le_less_trans)
    qed
    with True show ?thesis by simp
  next
    case False
    have "\<exists>b<length (?seen @ ps).
           max_by_score best ps = (?seen @ ps) ! b
           \<and> (\<forall>i<length (?seen @ ps). pd_score ((?seen @ ps) ! i) \<le> pd_score ((?seen @ ps) ! b))
           \<and> (\<forall>i<b. pd_score ((?seen @ ps) ! i) < pd_score ((?seen @ ps) ! b))"
    proof (rule Cons.IH [of c ?seen best])
      show "c < length ?seen" using Cons.prems by simp
      show "best = ?seen ! c" using Cons.prems by (simp add: nth_append)
      show "\<forall>i<length ?seen. pd_score (?seen ! i) \<le> pd_score (?seen ! c)"
        using False Cons.prems by (auto simp: nth_append less_Suc_eq)
      show "\<forall>i<c. pd_score (?seen ! i) < pd_score (?seen ! c)"
        using Cons.prems by (auto simp: nth_append)
    qed
    with False show ?thesis by simp
  qed
qed

lemma best_prompt_first_max:
  assumes "prompts \<noteq> []"
  shows "\<exists>b<length prompts.
           best_prompt prompts = Inr (prompts ! b)
           \<and> (\<forall>i<length prompts. pd_score (prompts ! i) \<le> pd_score (prompts ! b))
           \<and> (\<forall>i<b. pd_score (prompts ! i) < pd_score (prompts ! b))"
proof -
  from assms obtain p ps where ps: "prompts = p # ps"
    by (cases prompts) auto
  from max_by_score_first_max [of 0 "[p]" p ps] show ?thesis
    by (simp add: ps best_prompt_def)
qed

lemma generate_report_returns:
  "prompts \<noteq> [] \<Longrightarrow> \<exists>report. generate_report now rough_prompt prompts refined_prompt = Inr report"
  by (cases prompts) (auto simp: generate_report_def py_max_def Let_def)

lemma generate_prompts_length:
  "generate_prompts mc rough_prompt creativity_level w = (Inr prompts, w1) \<Longrightarrow> length prompts = 4"
  by (auto simp: generate_prompts_def parse_response_length split: prod.splits sum.splits)


lemma parse_response_ids: "map pd_id (parse_response response) = [1, 2, 3, 4]"
  by (simp add: parse_response_unfold parse_style_def Let_def)

text \<open>
  C1: in a run whose generation succeeded and in which the test call raises for exactly
  one variant \<open>k\<close> (variant 2 is \<open>k = 1\<close>) and returns for the others, \<^verbatim>\<open>run_studio\<close>
  returns a result with exactly 4 variants, with the ids 1 to 4 and the styles and prompts
  as generated; the output of variant \<open>k\<close> is "Error: " followed by the text of the
  exception and its score is 0; every other variant has the output of its own test call
  and the score of that output; and the variant passed to the refiner has the maximum
  score, and is the first one in generation order with that score.
\<close>

theorem run_studio_one_failure:
  assumes gen: "generate_prompts mc rough_prompt creativity_level w = (Inr prompts, w1)"
    and outs: "test_outcomes mc model iterations prompts w1 = (outcomes, w2)"
    and k: "k < 4"
    and fail: "outcomes ! k = Inl e"
    and others: "\<forall>i<4. i \<noteq> k \<longrightarrow> (\<exists>out. outcomes ! i = Inr out)"
  shows "\<exists>result w3.
      run_studio mc now rough_prompt creativity_level model iterations w = (Inr result, w3)
      \<and> length (rr_prompts result) = 4
      \<and> map pd_id (rr_prompts result) = [1, 2, 3, 4]
      \<and> (\<forall>i<4. pd_style (rr_prompts result ! i) = pd_style (prompts ! i)
                 \<and> pd_prompt (rr_prompts result ! i) = pd_prompt (prompts ! i))
      \<and> pd_output (rr_prompts result ! k) = ''Error: '' @ str_exn e
      \<and> pd_score (rr_prompts result ! k) = 0
      \<and> (\<forall>i<4. \<forall>out. outcomes ! i = Inr out \<longrightarrow>
            pd_output (rr_prompts result ! i) = out
            \<and> pd_score (rr_prompts result ! i) = score_output out (pd_prompt (prompts ! i)))
      \<and> (\<exists>b<4.
            (\<forall>i<4. pd_score (rr_prompts result ! i) \<le> pd_score (rr_prompts result ! b))
            \<and> (\<forall>i<b. pd_score (rr_prompts result ! i) < pd_score (rr_prompts result ! b))
            \<and> refine_prompt mc (pd_prompt (rr_prompts result ! b))
                 (pd_output (rr_prompts result ! b)) (pd_score (rr_prompts result ! b)) w2
               = (rr_refined_prompt result, w3))"
proof -
  have len: "length prompts = 4"
    by (rule generate_prompts_length [OF gen])
  from gen have ids: "map pd_id prompts = [1, 2, 3, 4]"
    by (auto simp: generate_prompts_def parse_response_ids split: prod.splits sum.splits)
  from test_and_score_all_outcomes [OF outs] len obtain tested where
    run: "test_and_score_all mc model iterations prompts w1 = (tested, w2)"
    and tlen: "length tested = 4"
    and each: "\<forall>i<4.
               pd_id (tested ! i) = pd_id (prompts ! i)
               \<and> pd_style (tested ! i) = pd_style (prompts ! i)
               \<and> pd_prompt (tested ! i) = pd_prompt (prompts ! i)
               \<and> (case outcomes ! i of
                     Inr out \<Rightarrow>
                       pd_output (tested ! i) = out
                       \<and> pd_score (tested ! i) = score_output out (pd_prompt (prompts ! i))
                   | Inl e \<Rightarrow>
                       pd_output (tested ! i) = ''Error: '' @ str_exn e
                       \<and> pd_score (tested ! i) = 0)"
    by auto
  from tlen have ne: "tested \<noteq> []" by auto
  from best_prompt_first_max [OF ne] tlen obtain b where
    b: "b < 4" "best_prompt tested = Inr (tested ! b)"
    and bmax: "\<forall>i<4. pd_score (tested ! i) \<le> pd_score (tested ! b)"
    and bfirst: "\<forall>i<b. pd_score (tested ! i) < pd_score (tested ! b)"
    by auto
  obtain refined w3 where
    ref: "refine_prompt mc (pd_prompt (tested ! b)) (pd_output (tested ! b))
            (pd_score (tested ! b)) w2 = (refined, w3)"
    by (cases "refine_prompt mc (pd_prompt (tested ! b)) (pd_output (tested ! b))
            (pd_score (tested ! b)) w2") auto
  from generate_report_returns [OF ne] obtain report where
    rep: "generate_report now rough_prompt tested refined = Inr report"
    by blast
  let ?result = "\<lparr>rr_prompts = tested, rr_refined_prompt = refined, rr_report = report\<rparr>"
  have r: "run_studio mc now rough_prompt creativity_level model iterations w = (Inr ?result, w3)"
    by (simp add: run_studio_def gen run b(2) ref rep)
  have tids: "map pd_id tested = [1, 2, 3, 4]"
  proof (rule nth_equalityI)
    show "length (map pd_id tested) = length [1, 2, 3, 4 :: int]"
      using tlen by simp
    fix i assume "i < length (map pd_id tested)"
    with tlen have i: "i < 4" by simp
    with each have "pd_id (tested ! i) = pd_id (prompts ! i)" by blast
    also have "\<dots> = map pd_id prompts ! i" using i len by simp
    finally show "map pd_id tested ! i = [1, 2, 3, 4] ! i"
      using i tlen ids by simp
  qed
  have kout: "pd_output (tested ! k) = ''Error: '' @ str_exn e \<and> pd_score (tested ! k) = 0"
    using each k fail by (auto split: sum.splits)
  have oks: "\<forall>i<4. \<forall>out. outcomes ! i = Inr out \<longrightarrow>
            pd_output (tested ! i) = out
            \<and> pd_score (tested ! i) = score_output out (pd_prompt (prompts ! i))"
    using each by (auto split: sum.splits)
  have sty: "\<forall>i<4. pd_style (tested ! i) = pd_style (prompts ! i)
                 \<and> pd_prompt (tested ! i) = pd_prompt (prompts ! i)"
    using each by blast
  have best: "\<exists>b<4.
            (\<forall>i<4. pd_score (tested ! i) \<le> pd_score (tested ! b))
            \<and> (\<forall>i<b. pd_score (tested ! i) < pd_score (tested ! b))
            \<and> refine_prompt mc (pd_prompt (tested ! b))
                 (pd_output (tested ! b)) (pd_score (tested ! b)) w2
               = (refined, w3)"
    using b(1) bmax bfirst ref by blast
  show ?thesis
    apply (rule exI [of _ ?result])
    apply (rule exI [of _ w3])
    using r tlen tids sty kout oks best
    apply simp
    done
qed

lemma str_int_one: "str_int 1 = ''1''"
  by code_simp

theorem run_studio_one_failure_witness:
  "\<exists>result w3.
     run_studio mc_flaky ''2025-01-01T00:00:00'' ''idea'' 8 ''m'' 1 (0::nat) = (Inr result, w3)
     \<and> length (rr_prompts result) = 4
     \<and> pd_output (rr_prompts result ! 1) = ''Error: rate limit''
     \<and> pd_score (rr_prompts result ! 1) = 0
     \<and> pd_output (rr_prompts result ! 2) = ''Iteration 1: Write it. Done! ok''"
proof -
  have gen: "generate_prompts mc_flaky ''idea'' 8 (0::nat) = (Inr (parse_response response_in_order), 1)"
    by (simp add: generate_prompts_def complete_first_model_def mc_flaky_def)
  have outs: "test_outcomes mc_flaky ''m'' 1 (parse_response response_in_order) (1::nat) =
      ([Inr ''Iteration 1: Write it. Done! ok'', Inl (ModelError ''rate limit''),
        Inr ''Iteration 1: Write it. Done! ok'', Inr ''Iteration 1: Write it. Done! ok''], 5)"
    by (simp add: parse_response_unfold test_prompt_def mc_flaky_def str_int_one)
  have k: "(1::nat) < 4" by simp
  have fail: "[Inr ''Iteration 1: Write it. Done! ok'', Inl (ModelError ''rate limit''),
        Inr ''Iteration 1: Write it. Done! ok'', Inr ''Iteration 1: Write it. Done! ok''] ! 1
      = Inl (ModelError ''rate limit'')"
    by simp
  have others: "\<forall>i<4. i \<noteq> 1 \<longrightarrow> (\<exists>out.
      [Inr ''Iteration 1: Write it. Done! ok'', Inl (ModelError ''rate limit''),
        Inr ''Iteration 1: Write it. Done! ok'', Inr ''Iteration 1: Write it. Done! ok''] ! i
      = Inr out)"
    by (simp add: All_less_Suc eval_nat_numeral)
  from run_studio_one_failure [OF gen outs k fail others, of "''2025-01-01T00:00:00''"]
  obtain result w3 where
    "run_studio mc_flaky ''2025-01-01T00:00:00'' ''idea'' 8 ''m'' 1 (0::nat) = (Inr result, w3)"
    "length (rr_prompts result) = 4"
    "pd_output (rr_prompts result ! 1) = ''Error: '' @ str_exn (ModelError ''rate limit'')"
    "pd_score (rr_prompts result ! 1) = 0"
    "\<forall>i<4. \<forall>out. [Inr ''Iteration 1: Write it. Done! ok'', Inl (ModelError ''rate limit''),
        Inr ''Iteration 1: Write it. Done! ok'', Inr ''Iteration 1: Write it. Done! ok''] ! i = Inr out \<longrightarrow>
            pd_output (rr_prompts result ! i) = out
            \<and> pd_score (rr_prompts result ! i) = score_output out (pd_prompt (parse_response response_in_order ! i))"
    by blast
  then show ?thesis
    by (intro exI [of _ result] exI [of _ w3]) simp
qed

end
